theory Spec2Isabelle
  imports Main "HOL-Library.Word" "HOL-Library.Multiset"
begin

section \<open>The FFT functor of vexcl/fft.hpp\<close>

text \<open>
  The file binds vex::vector to AMD's FFT library. Everything numerical happens inside
  the library; what the file itself does is (a) keep the process-wide counter
  \<open>fft_ref_count\<close> and call the library's Setup and Teardown around it, (b) create and
  configure a plan in \<open>init\<close>, (c) destroy it in the destructor and (d) configure the
  result location and enqueue the transform in \<open>execute\<close>.

  The library is opaque, so the embedding takes it as a parameter: an \<open>engine\<close> answers
  every call with a status (and, for plan creation, a plan handle), and may answer
  differently depending on everything it has been asked before. Every call made to the
  engine is appended to a log, together with the value \<open>fft_ref_count\<close> has at the moment
  of the call; the log is the observation a test double standing in for the library
  makes. Assertions are modelled as they are written, that is, as aborting when violated
  (a build with \<open>NDEBUG\<close>, in which \<open>assert\<close> expands to nothing, is not modelled).
  \<open>size_t\<close> is taken to be 64 bits wide.
\<close>

subsection \<open>Types of OpenCL and of clAmdFft.h\<close>

type_synonym size_t = "64 word"

type_synonym clAmdFftStatus = int

definition CL_SUCCESS :: clAmdFftStatus where
  "CL_SUCCESS = 0"

type_synonym clAmdFftPlanHandle = size_t

text \<open>Raw OpenCL handles are pointers; only their identity matters here.\<close>

type_synonym cl_mem = nat
type_synonym cl_context = nat
type_synonym cl_command_queue = nat

text \<open>
  A \<open>cl::CommandQueue\<close>: \<open>q()\<close> is its raw handle, \<open>q.getInfo<CL_QUEUE_CONTEXT>()\<close> the
  context it was created in.
\<close>

record CommandQueue =
  queue_handle :: cl_command_queue
  queue_context :: cl_context

text \<open>
  A \<open>vex::vector<T>\<close>, as far as this file looks at it: \<open>v(d)()\<close> is the raw handle of the
  device buffer holding the part of the vector that lives on device \<open>d\<close>.
\<close>

type_synonym vector = "nat \<Rightarrow> cl_mem"

datatype clAmdFftPrecision =
  CLFFT_SINGLE | CLFFT_DOUBLE | CLFFT_SINGLE_FAST | CLFFT_DOUBLE_FAST

datatype clAmdFftLayout =
  CLFFT_COMPLEX_INTERLEAVED | CLFFT_COMPLEX_PLANAR
  | CLFFT_HERMITIAN_INTERLEAVED | CLFFT_HERMITIAN_PLANAR | CLFFT_REAL

datatype clAmdFftResultLocation = CLFFT_INPLACE | CLFFT_OUTOFPLACE

text \<open>\<open>enum fft_direction { forward = CLFFT_FORWARD, inverse = CLFFT_BACKWARD }\<close>\<close>

datatype fft_direction = forward | inverse_dir

subsection \<open>The engine and the log of calls\<close>

text \<open>
  One constructor for each entry point of the library the file calls, with the arguments
  the file passes. \<open>CreateDefaultPlan\<close> carries the context, the dimension
  (\<open>lengths.size()\<close> cast to \<open>clAmdFftDim\<close>) and the copied lengths; \<open>EnqueueTransform\<close> the
  plan, the direction, the number of queues, the raw queue handles, and the input and
  output buffer (the wait list and the out events are always empty).
\<close>

datatype engine_call =
  Setup
  | CreateDefaultPlan cl_context nat "size_t list"
  | SetPlanPrecision clAmdFftPlanHandle clAmdFftPrecision
  | SetLayout clAmdFftPlanHandle clAmdFftLayout clAmdFftLayout
  | SetResultLocation clAmdFftPlanHandle clAmdFftResultLocation
  | EnqueueTransform clAmdFftPlanHandle fft_direction nat "cl_command_queue list" cl_mem cl_mem
  | DestroyPlan clAmdFftPlanHandle
  | Teardown

text \<open>A log entry: the call, and the value of \<open>fft_ref_count\<close> when it was made.\<close>

type_synonym event = "engine_call \<times> size_t"

record engine =
  respond :: "event list \<Rightarrow> engine_call \<Rightarrow> clAmdFftStatus"
  new_plan :: "event list \<Rightarrow> clAmdFftPlanHandle"

subsection \<open>State, errors and sequencing\<close>

text \<open>\<open>size_t fft_ref_count = 0;\<close> is the only global of the file; \<open>trace\<close> is the log.\<close>

record globals =
  fft_ref_count :: size_t
  trace :: "event list"

definition initial_globals :: globals where
  "initial_globals = \<lparr>fft_ref_count = 0, trace = []\<rparr>"

text \<open>The data members of \<open>struct FFT\<close>. \<open>queues\<close> is a reference to the caller's vector.\<close>

record FFT =
  queues :: "CommandQueue list"
  plan :: clAmdFftPlanHandle
  dir :: fft_direction

text \<open>
  \<open>Error st tag\<close> is \<open>cl::Error(st, tag)\<close> being thrown; \<open>AssertionFailed\<close> is a violated
  \<open>assert\<close>; \<open>OutOfBounds\<close> is \<open>queues[0]\<close> on an empty vector, where C++ leaves the
  behaviour undefined and the model stops.
\<close>

datatype error = Error clAmdFftStatus string | AssertionFailed | OutOfBounds

text \<open>
  A member function runs on the object and the globals and either returns a value or
  leaves with an error; in both cases the state it leaves behind is part of the result.
\<close>

type_synonym state = "FFT \<times> globals"
type_synonym 'a prog = "state \<Rightarrow> (error + 'a) \<times> state"

definition return_prog :: "'a \<Rightarrow> 'a prog" where
  "return_prog a s = (Inr a, s)"

definition throw_prog :: "error \<Rightarrow> 'a prog" where
  "throw_prog e s = (Inl e, s)"

definition bind_prog :: "'a prog \<Rightarrow> ('a \<Rightarrow> 'b prog) \<Rightarrow> 'b prog" where
  "bind_prog m f s = (case m s of (Inl e, s') \<Rightarrow> (Inl e, s') | (Inr a, s') \<Rightarrow> f a s')"

definition assert_prog :: "bool \<Rightarrow> unit prog" where
  "assert_prog c = (if c then return_prog () else throw_prog AssertionFailed)"

text \<open>Calling the engine: it answers from its history, and the call is logged.\<close>

definition log_call :: "engine_call \<Rightarrow> globals \<Rightarrow> globals" where
  "log_call c g = g\<lparr>trace := trace g @ [(c, fft_ref_count g)]\<rparr>"

definition engine_status :: "engine \<Rightarrow> engine_call \<Rightarrow> clAmdFftStatus prog" where
  "engine_status eng c s =
     (case s of (obj, g) \<Rightarrow> (Inr (respond eng (trace g) c), (obj, log_call c g)))"

definition clAmdFftSetup :: "engine \<Rightarrow> clAmdFftStatus prog" where
  "clAmdFftSetup eng = engine_status eng Setup"

definition clAmdFftTeardown :: "engine \<Rightarrow> clAmdFftStatus prog" where
  "clAmdFftTeardown eng = engine_status eng Teardown"

text \<open>
  \<open>clAmdFftCreateDefaultPlan(&plan, ...)\<close> gets the address of the data member \<open>plan\<close> and
  stores the new handle there.
\<close>

definition clAmdFftCreateDefaultPlan ::
  "engine \<Rightarrow> cl_context \<Rightarrow> nat \<Rightarrow> size_t list \<Rightarrow> clAmdFftStatus prog" where
  "clAmdFftCreateDefaultPlan eng context dim lengths s =
     (case s of (obj, g) \<Rightarrow>
        (Inr (respond eng (trace g) (CreateDefaultPlan context dim lengths)),
         (obj\<lparr>plan := new_plan eng (trace g)\<rparr>,
          log_call (CreateDefaultPlan context dim lengths) g)))"

definition clAmdFftSetPlanPrecision ::
  "engine \<Rightarrow> clAmdFftPlanHandle \<Rightarrow> clAmdFftPrecision \<Rightarrow> clAmdFftStatus prog" where
  "clAmdFftSetPlanPrecision eng p prec = engine_status eng (SetPlanPrecision p prec)"

definition clAmdFftSetLayout ::
  "engine \<Rightarrow> clAmdFftPlanHandle \<Rightarrow> clAmdFftLayout \<Rightarrow> clAmdFftLayout \<Rightarrow> clAmdFftStatus prog" where
  "clAmdFftSetLayout eng p li lo = engine_status eng (SetLayout p li lo)"

definition clAmdFftSetResultLocation ::
  "engine \<Rightarrow> clAmdFftPlanHandle \<Rightarrow> clAmdFftResultLocation \<Rightarrow> clAmdFftStatus prog" where
  "clAmdFftSetResultLocation eng p loc = engine_status eng (SetResultLocation p loc)"

definition clAmdFftEnqueueTransform ::
  "engine \<Rightarrow> clAmdFftPlanHandle \<Rightarrow> fft_direction \<Rightarrow> nat \<Rightarrow> cl_command_queue list
     \<Rightarrow> cl_mem \<Rightarrow> cl_mem \<Rightarrow> clAmdFftStatus prog" where
  "clAmdFftEnqueueTransform eng p d n qs input_buf output_buf =
     engine_status eng (EnqueueTransform p d n qs input_buf output_buf)"

definition clAmdFftDestroyPlan :: "engine \<Rightarrow> clAmdFftPlanHandle \<Rightarrow> clAmdFftStatus prog" where
  "clAmdFftDestroyPlan eng p = engine_status eng (DestroyPlan p)"

subsection \<open>The member functions of FFT\<close>

text \<open>
  \<^verbatim>\<open>void check_error(clAmdFftStatus status) const {
    if(status != CL_SUCCESS) throw cl::Error(status, "AMD FFT"); }\<close>
\<close>

definition check_error :: "clAmdFftStatus \<Rightarrow> unit prog" where
  "check_error status =
     (if status \<noteq> CL_SUCCESS then throw_prog (Error status ''AMD FFT'') else return_prog ())"

text \<open>\<open>queues[0].getInfo<CL_QUEUE_CONTEXT>()\<close>\<close>

definition first_queue_context :: "cl_context prog" where
  "first_queue_context s =
     (case queues (fst s) of [] \<Rightarrow> (Inl OutOfBounds, s) | q # _ \<Rightarrow> (Inr (queue_context q), s))"

text \<open>\<open>fft_ref_count++\<close>: the value of the expression is the old count.\<close>

definition post_increment_ref_count :: "size_t prog" where
  "post_increment_ref_count s =
     (case s of (obj, g) \<Rightarrow> (Inr (fft_ref_count g), (obj, g\<lparr>fft_ref_count := fft_ref_count g + 1\<rparr>)))"

text \<open>\<open>--fft_ref_count\<close>: the value of the expression is the new count.\<close>

definition pre_decrement_ref_count :: "size_t prog" where
  "pre_decrement_ref_count s =
     (case s of (obj, g) \<Rightarrow> (Inr (fft_ref_count g - 1), (obj, g\<lparr>fft_ref_count := fft_ref_count g - 1\<rparr>)))"

definition get_plan :: "clAmdFftPlanHandle prog" where
  "get_plan s = (Inr (plan (fst s)), s)"

text \<open>
  \<^verbatim>\<open>void init(const Array &lengths) {
    assert(lengths.size() >= 1 && lengths.size() <= 3);
    size_t _lengths[lengths.size()];
    std::copy(std::begin(lengths), std::end(lengths), _lengths);
    cl::Context context = static_cast<cl::CommandQueue>(queues[0]).getInfo<CL_QUEUE_CONTEXT>();
    if(fft_ref_count++ == 0)
        check_error(clAmdFftSetup(NULL));
    check_error(clAmdFftCreateDefaultPlan(&plan, context(),
        static_cast<clAmdFftDim>(lengths.size()), _lengths));
    check_error(clAmdFftSetPlanPrecision(plan, CLFFT_SINGLE));
    check_error(clAmdFftSetLayout(plan, CLFFT_COMPLEX_INTERLEAVED, CLFFT_COMPLEX_INTERLEAVED));
  }\<close>
\<close>

definition init :: "engine \<Rightarrow> size_t list \<Rightarrow> unit prog" where
  "init eng lengths =
     bind_prog (assert_prog (length lengths \<ge> 1 \<and> length lengths \<le> 3)) (\<lambda>_.
     bind_prog first_queue_context (\<lambda>context.
     bind_prog post_increment_ref_count (\<lambda>old.
     bind_prog (if old = 0 then bind_prog (clAmdFftSetup eng) check_error
                else return_prog ()) (\<lambda>_.
     bind_prog (bind_prog (clAmdFftCreateDefaultPlan eng context (length lengths) lengths)
                  check_error) (\<lambda>_.
     bind_prog get_plan (\<lambda>p.
     bind_prog (bind_prog (clAmdFftSetPlanPrecision eng p CLFFT_SINGLE) check_error) (\<lambda>_.
     bind_prog (clAmdFftSetLayout eng p CLFFT_COMPLEX_INTERLEAVED CLFFT_COMPLEX_INTERLEAVED)
       check_error)))))))"

text \<open>
  The constructors: \<open>: queues(queues), plan(0), dir(dir) { init(lengths); }\<close>. An
  exception leaving \<open>init\<close> leaves the constructor, and no object exists afterwards; the
  globals stay as they were when it was thrown. The constructor taking an
  \<open>initializer_list\<close> is the same function; the one taking a single length follows.
\<close>

definition FFT_new ::
  "engine \<Rightarrow> CommandQueue list \<Rightarrow> size_t list \<Rightarrow> fft_direction \<Rightarrow> globals
     \<Rightarrow> (error + FFT) \<times> globals" where
  "FFT_new eng qs lengths d g =
     (case init eng lengths (\<lparr>queues = qs, plan = 0, dir = d\<rparr>, g) of
        (Inl e, (obj, g')) \<Rightarrow> (Inl e, g')
      | (Inr _, (obj, g')) \<Rightarrow> (Inr obj, g'))"

definition FFT_new_1d ::
  "engine \<Rightarrow> CommandQueue list \<Rightarrow> size_t \<Rightarrow> fft_direction \<Rightarrow> globals
     \<Rightarrow> (error + FFT) \<times> globals" where
  "FFT_new_1d eng qs len d g = FFT_new eng qs [len] d g"

text \<open>
  \<^verbatim>\<open>~FFT() {
    if(plan)
        check_error(clAmdFftDestroyPlan(&plan));
    if(--fft_ref_count == 0)
        check_error(clAmdFftTeardown());
  }\<close>
\<close>

definition FFT_delete_body :: "engine \<Rightarrow> unit prog" where
  "FFT_delete_body eng =
     bind_prog get_plan (\<lambda>p.
     bind_prog (if p \<noteq> 0 then bind_prog (clAmdFftDestroyPlan eng p) check_error
                else return_prog ()) (\<lambda>_.
     bind_prog pre_decrement_ref_count (\<lambda>new.
     if new = 0 then bind_prog (clAmdFftTeardown eng) check_error else return_prog ())))"

text \<open>
  The object is gone after its destructor; what remains are the globals. When
  \<open>check_error\<close> throws inside the destructor, the result is that error together with the
  globals as they are at the throw; what the C++ runtime then does with an exception that
  leaves a destructor is not part of the model.
\<close>

definition FFT_delete :: "engine \<Rightarrow> FFT \<Rightarrow> globals \<Rightarrow> (error + unit) \<times> globals" where
  "FFT_delete eng obj g = (case FFT_delete_body eng (obj, g) of (r, (obj', g')) \<Rightarrow> (r, g'))"

text \<open>
  \<^verbatim>\<open>template <bool negate, bool append>
  void execute(const vector<T0> &input, vector<T1> &output) const {
    assert(!append); // TODO: that should be static.
    static_assert(!negate, "Negation not implemented yet.");
    // Doesn't support split buffers.
    assert(queues.size() == 1);
    cl_mem input_buf = input(0)();
    cl_mem output_buf = output(0)();
    check_error(clAmdFftSetResultLocation(plan,
        input_buf == output_buf ? CLFFT_INPLACE : CLFFT_OUTOFPLACE));
    cl_command_queue _queues[queues.size()];
    for(size_t i = 0 ; i < queues.size() ; i++)
        _queues[i] = queues[i]();
    check_error(clAmdFftEnqueueTransform(plan, static_cast<clAmdFftDirection>(dir),
        queues.size(), _queues, 0, NULL, NULL, &input_buf, &output_buf, NULL));
  }\<close>
  \<open>negate\<close> is a template argument and the \<open>static_assert\<close> refuses to compile any
  instantiation with \<open>negate = true\<close>, so the only \<open>execute\<close> a program contains has
  \<open>negate = false\<close>; the embedding has no such parameter. \<open>append\<close> is tested when the
  function runs, and is the argument \<open>append_flag\<close> here. The loop copies the raw handle of every queue, in order.
\<close>

definition get_queues :: "CommandQueue list prog" where
  "get_queues s = (Inr (queues (fst s)), s)"

definition get_dir :: "fft_direction prog" where
  "get_dir s = (Inr (dir (fst s)), s)"

primrec raw_queues :: "CommandQueue list \<Rightarrow> cl_command_queue list" where
  "raw_queues [] = []"
| "raw_queues (q # qs) = queue_handle q # raw_queues qs"

definition execute_body :: "engine \<Rightarrow> bool \<Rightarrow> vector \<Rightarrow> vector \<Rightarrow> unit prog" where
  "execute_body eng append_flag input output =
     bind_prog (assert_prog (\<not> append_flag)) (\<lambda>_.
     bind_prog get_queues (\<lambda>qs.
     bind_prog (assert_prog (length qs = 1)) (\<lambda>_.
     bind_prog get_plan (\<lambda>p.
     bind_prog get_dir (\<lambda>d.
     bind_prog (bind_prog (clAmdFftSetResultLocation eng p
                  (if input 0 = output 0 then CLFFT_INPLACE else CLFFT_OUTOFPLACE))
                  check_error) (\<lambda>_.
     bind_prog (clAmdFftEnqueueTransform eng p d (length qs) (raw_queues qs)
                  (input 0) (output 0))
       check_error))))))"

text \<open>
  \<open>execute\<close> is a member function like the others: it is given the object and the
  globals, and the result says what both are when it is left.
\<close>

definition execute ::
  "engine \<Rightarrow> bool \<Rightarrow> vector \<Rightarrow> vector \<Rightarrow> FFT \<Rightarrow> globals \<Rightarrow> (error + unit) \<times> FFT \<times> globals" where
  "execute eng append_flag input output obj g =
     execute_body eng append_flag input output (obj, g)"

subsection \<open>Test doubles and sample data\<close>

text \<open>An engine that accepts everything and numbers its plans by the length of its history.\<close>

definition engine_ok :: engine where
  "engine_ok = \<lparr>respond = (\<lambda>h c. CL_SUCCESS), new_plan = (\<lambda>h. of_nat (length h) + 1)\<rparr>"

text \<open>An engine that refuses to destroy plans, with status \<open>-1\<close>, and accepts the rest.\<close>

definition engine_no_destroy :: engine where
  "engine_no_destroy =
     \<lparr>respond = (\<lambda>h c. case c of DestroyPlan p \<Rightarrow> - 1 | _ \<Rightarrow> CL_SUCCESS),
      new_plan = (\<lambda>h. of_nat (length h) + 1)\<rparr>"

text \<open>An engine that refuses to create plans, with status \<open>4097\<close>, and accepts the rest.\<close>

definition engine_no_plan :: engine where
  "engine_no_plan =
     \<lparr>respond = (\<lambda>h c. case c of CreateDefaultPlan ctx n ls \<Rightarrow> 4097 | _ \<Rightarrow> CL_SUCCESS),
      new_plan = (\<lambda>h. of_nat (length h) + 1)\<rparr>"

text \<open>An engine that refuses the global teardown, with status \<open>9\<close>, and accepts the rest.\<close>

definition engine_no_teardown :: engine where
  "engine_no_teardown =
     \<lparr>respond = (\<lambda>h c. case c of Teardown \<Rightarrow> 9 | _ \<Rightarrow> CL_SUCCESS),
      new_plan = (\<lambda>h. of_nat (length h) + 1)\<rparr>"

definition queue_a :: CommandQueue where
  "queue_a = \<lparr>queue_handle = 11, queue_context = 5\<rparr>"

definition queue_b :: CommandQueue where
  "queue_b = \<lparr>queue_handle = 12, queue_context = 6\<rparr>"

definition vec_x :: vector where
  "vec_x d = 100 + d"

definition vec_y :: vector where
  "vec_y d = 200 + d"

definition fft_one_queue :: FFT where
  "fft_one_queue = \<lparr>queues = [queue_a], plan = 7, dir = forward\<rparr>"

definition fft_two_queues :: FFT where
  "fft_two_queues = \<lparr>queues = [queue_a, queue_b], plan = 7, dir = forward\<rparr>"

subsection \<open>The member functions as sequences of engine calls\<close>

text \<open>
  Each member function makes its engine calls one after the other and leaves at the first
  one that is refused. \<open>run_calls\<close> is that pattern on its own; the three lemmas after it
  say which calls each member function runs.
\<close>

fun run_calls :: "engine \<Rightarrow> engine_call list \<Rightarrow> globals \<Rightarrow> (error + unit) \<times> globals" where
  "run_calls eng [] g = (Inr (), g)"
| "run_calls eng (c # cs) g =
     (if respond eng (trace g) c \<noteq> CL_SUCCESS
      then (Inl (Error (respond eng (trace g) c) ''AMD FFT''), log_call c g)
      else run_calls eng cs (log_call c g))"

definition setup_calls :: "size_t \<Rightarrow> engine_call list" where
  "setup_calls old = (if old = 0 then [Setup] else [])"

definition created_plan :: "engine \<Rightarrow> globals \<Rightarrow> clAmdFftPlanHandle" where
  "created_plan eng g =
     new_plan eng (trace g @ map (\<lambda>c. (c, fft_ref_count g + 1)) (setup_calls (fft_ref_count g)))"

definition init_calls ::
  "engine \<Rightarrow> CommandQueue list \<Rightarrow> size_t list \<Rightarrow> globals \<Rightarrow> engine_call list" where
  "init_calls eng qs ls g =
     setup_calls (fft_ref_count g) @
     [CreateDefaultPlan (queue_context (hd qs)) (length ls) ls,
      SetPlanPrecision (created_plan eng g) CLFFT_SINGLE,
      SetLayout (created_plan eng g) CLFFT_COMPLEX_INTERLEAVED CLFFT_COMPLEX_INTERLEAVED]"

definition destroy_calls :: "clAmdFftPlanHandle \<Rightarrow> engine_call list" where
  "destroy_calls p = (if p \<noteq> 0 then [DestroyPlan p] else [])"

definition teardown_calls :: "size_t \<Rightarrow> engine_call list" where
  "teardown_calls new = (if new = 0 then [Teardown] else [])"

text \<open>The statuses the engine gave to the logged calls \<open>es\<close>, made after the history \<open>h\<close>.\<close>

fun statuses :: "engine \<Rightarrow> event list \<Rightarrow> event list \<Rightarrow> clAmdFftStatus list" where
  "statuses eng h [] = []"
| "statuses eng h (e # es) = respond eng h (fst e) # statuses eng (h @ [e]) es"

text \<open>The calls among the logged calls \<open>es\<close>, made after the history \<open>h\<close>, that the engine refused.\<close>

fun refused :: "engine \<Rightarrow> event list \<Rightarrow> event list \<Rightarrow> engine_call list" where
  "refused eng h [] = []"
| "refused eng h (e # es) =
     (if respond eng h (fst e) \<noteq> CL_SUCCESS then [fst e] else []) @ refused eng (h @ [e]) es"

text \<open>
  What an outcome \<open>r\<close> must be, given the calls \<open>es\<close> made after the history \<open>h\<close>: a
  \<open>cl::Error\<close> carries the tag "AMD FFT" and the status of the last call, which is not
  success, while every call before it succeeded; an abort comes with no call at all; a
  normal return comes with successful calls only.
\<close>

definition error_discipline :: "engine \<Rightarrow> event list \<Rightarrow> error + 'a \<Rightarrow> event list \<Rightarrow> bool" where
  "error_discipline eng h r es =
     (case r of
        Inl (Error st tag) \<Rightarrow>
          es \<noteq> [] \<and> tag = ''AMD FFT'' \<and> st \<noteq> CL_SUCCESS \<and>
          statuses eng h es = replicate (length es - 1) CL_SUCCESS @ [st]
      | Inl _ \<Rightarrow> es = []
      | Inr _ \<Rightarrow> statuses eng h es = replicate (length es) CL_SUCCESS)"

text \<open>The part of the log written between the globals \<open>g\<close> and the later globals \<open>g'\<close>.\<close>

definition new_events :: "globals \<Rightarrow> globals \<Rightarrow> event list" where
  "new_events g g' = drop (length (trace g)) (trace g')"

definition new_calls :: "globals \<Rightarrow> globals \<Rightarrow> engine_call list" where
  "new_calls g g' = map fst (new_events g g')"

subsection \<open>The scenario of several adapters\<close>

text \<open>
  Constructing adapters one after the other, each from its own arguments, and destroying
  a list of adapters one after the other. Either stops at the first constructor or
  destructor that is left by an error: \<open>~FFT\<close> is declared without an exception
  specification, which in C++11 makes it \<open>noexcept\<close>, so an exception that leaves it
  ends the program and the destructors after it are not run.
\<close>

type_synonym ctor_args = "CommandQueue list \<times> size_t list \<times> fft_direction"

fun construct_all :: "engine \<Rightarrow> ctor_args list \<Rightarrow> globals \<Rightarrow> (error + FFT list) \<times> globals" where
  "construct_all eng [] g = (Inr [], g)"
| "construct_all eng ((qs, ls, d) # as) g =
     (case FFT_new eng qs ls d g of
        (Inl e, g') \<Rightarrow> (Inl e, g')
      | (Inr obj, g') \<Rightarrow>
          (case construct_all eng as g' of
             (Inl e, g'') \<Rightarrow> (Inl e, g'')
           | (Inr objs, g'') \<Rightarrow> (Inr (obj # objs), g'')))"

fun destroy_all :: "engine \<Rightarrow> FFT list \<Rightarrow> globals \<Rightarrow> (error + unit) \<times> globals" where
  "destroy_all eng [] g = (Inr (), g)"
| "destroy_all eng (obj # objs) g =
     (case FFT_delete eng obj g of
        (Inl e, g') \<Rightarrow> (Inl e, g')
      | (Inr _, g') \<Rightarrow> destroy_all eng objs g')"

subsection \<open>A sample run\<close>

text \<open>
  Two constructions on the accepting engine, starting from the initial globals: the
  arguments, the two adapters they give, and the globals after both.
\<close>

definition sample_args :: "ctor_args list" where
  "sample_args = [([queue_a], [8], forward), ([queue_a, queue_b], [4, 4], inverse_dir)]"

definition sample_fft_1 :: FFT where
  "sample_fft_1 = \<lparr>queues = [queue_a], plan = 2, dir = forward\<rparr>"

definition sample_fft_2 :: FFT where
  "sample_fft_2 = \<lparr>queues = [queue_a, queue_b], plan = 5, dir = inverse_dir\<rparr>"

definition sample_globals :: globals where
  "sample_globals =
     \<lparr>fft_ref_count = 2,
      trace = [(Setup, 1), (CreateDefaultPlan 5 1 [8], 1), (SetPlanPrecision 2 CLFFT_SINGLE, 1),
        (SetLayout 2 CLFFT_COMPLEX_INTERLEAVED CLFFT_COMPLEX_INTERLEAVED, 1),
        (CreateDefaultPlan 5 2 [4, 4], 2), (SetPlanPrecision 5 CLFFT_SINGLE, 2),
        (SetLayout 5 CLFFT_COMPLEX_INTERLEAVED CLFFT_COMPLEX_INTERLEAVED, 2)]\<rparr>"

section \<open>Properties\<close>

subsection \<open>Auxiliary facts\<close>

lemmas prog_defs = bind_prog_def return_prog_def throw_prog_def assert_prog_def
  engine_status_def check_error_def get_plan_def get_queues_def get_dir_def
  first_queue_context_def post_increment_ref_count_def pre_decrement_ref_count_def
  clAmdFftSetup_def clAmdFftTeardown_def clAmdFftCreateDefaultPlan_def
  clAmdFftSetPlanPrecision_def clAmdFftSetLayout_def clAmdFftSetResultLocation_def
  clAmdFftEnqueueTransform_def clAmdFftDestroyPlan_def

lemma execute_run_calls:
  "execute eng a i o' obj g =
     (if a \<or> length (queues obj) \<noteq> 1 then (Inl AssertionFailed, obj, g)
      else case run_calls eng
          [SetResultLocation (plan obj) (if i 0 = o' 0 then CLFFT_INPLACE else CLFFT_OUTOFPLACE),
           EnqueueTransform (plan obj) (dir obj) (length (queues obj)) (raw_queues (queues obj))
             (i 0) (o' 0)] g of (r, g') \<Rightarrow> (r, obj, g'))"
  by (simp add: execute_def execute_body_def prog_defs)

lemma FFT_new_run_calls:
  "FFT_new eng qs ls d g =
     (if \<not> (1 \<le> length ls \<and> length ls \<le> 3) then (Inl AssertionFailed, g)
      else if qs = [] then (Inl OutOfBounds, g)
      else case run_calls eng (init_calls eng qs ls g) (g\<lparr>fft_ref_count := fft_ref_count g + 1\<rparr>) of
             (Inl e, g') \<Rightarrow> (Inl e, g')
           | (Inr _, g') \<Rightarrow> (Inr \<lparr>queues = qs, plan = created_plan eng g, dir = d\<rparr>, g'))"
  by (cases qs)
     (simp_all add: FFT_new_def init_def prog_defs init_calls_def setup_calls_def created_plan_def
        log_call_def)

lemma FFT_delete_run_calls:
  "FFT_delete eng obj g =
     (case run_calls eng (destroy_calls (plan obj)) g of
        (Inl e, g') \<Rightarrow> (Inl e, g')
      | (Inr _, g') \<Rightarrow>
          run_calls eng (teardown_calls (fft_ref_count g - 1))
            (g'\<lparr>fft_ref_count := fft_ref_count g' - 1\<rparr>))"
  by (simp add: FFT_delete_def FFT_delete_body_def prog_defs teardown_calls_def destroy_calls_def
        log_call_def)

lemma run_calls_count: "fft_ref_count (snd (run_calls eng cs g)) = fft_ref_count g"
  by (induction cs arbitrary: g) (simp_all add: log_call_def)

lemma run_calls_trace:
  "\<exists>k\<le>length cs. trace (snd (run_calls eng cs g)) =
      trace g @ map (\<lambda>c. (c, fft_ref_count g)) (take k cs) \<and>
      (fst (run_calls eng cs g) = Inr () \<longrightarrow> k = length cs) \<and>
      (fst (run_calls eng cs g) \<noteq> Inr () \<longrightarrow> 0 < k)"
proof (induction cs arbitrary: g)
  case Nil
  show ?case by simp
next
  case (Cons c cs)
  show ?case
  proof (cases "respond eng (trace g) c = CL_SUCCESS")
    case False
    then show ?thesis by (intro exI[of _ 1]) (simp add: log_call_def)
  next
    case True
    from Cons.IH[of "log_call c g"] obtain k where k: "k \<le> length cs"
      "trace (snd (run_calls eng cs (log_call c g))) =
         trace (log_call c g) @ map (\<lambda>c'. (c', fft_ref_count (log_call c g))) (take k cs)"
      "fst (run_calls eng cs (log_call c g)) = Inr () \<longrightarrow> k = length cs"
      by blast
    with True show ?thesis
      by (intro exI[of _ "Suc k"]) (simp add: log_call_def)
  qed
qed

lemma statuses_append:
  "statuses eng h (es @ fs) = statuses eng h es @ statuses eng (h @ es) fs"
  by (induction es arbitrary: h) simp_all

lemma length_statuses: "length (statuses eng h es) = length es"
  by (induction es arbitrary: h) simp_all

lemma run_calls_discipline:
  "\<exists>es. trace (snd (run_calls eng cs g)) = trace g @ es \<and>
     error_discipline eng (trace g) (fst (run_calls eng cs g)) es \<and>
     (fst (run_calls eng cs g) = Inr () \<or>
      (\<exists>st. fst (run_calls eng cs g) = Inl (Error st ''AMD FFT'')))"
proof (induction cs arbitrary: g)
  case Nil
  show ?case by (simp add: error_discipline_def)
next
  case (Cons c cs)
  show ?case
  proof (cases "respond eng (trace g) c = CL_SUCCESS")
    case False
    then show ?thesis
      by (intro exI[of _ "[(c, fft_ref_count g)]"]) (simp add: log_call_def error_discipline_def)
  next
    case True
    from Cons.IH[of "log_call c g"] obtain es where es:
      "trace (snd (run_calls eng cs (log_call c g))) = trace (log_call c g) @ es"
      "error_discipline eng (trace (log_call c g)) (fst (run_calls eng cs (log_call c g))) es"
      "fst (run_calls eng cs (log_call c g)) = Inr () \<or>
        (\<exists>st. fst (run_calls eng cs (log_call c g)) = Inl (Error st ''AMD FFT''))"
      by blast
    from es(3) show ?thesis
    proof
      assume r: "fst (run_calls eng cs (log_call c g)) = Inr ()"
      with es True show ?thesis
        by (intro exI[of _ "(c, fft_ref_count g) # es"])
           (simp add: log_call_def error_discipline_def)
    next
      assume "\<exists>st. fst (run_calls eng cs (log_call c g)) = Inl (Error st ''AMD FFT'')"
      then obtain st where r: "fst (run_calls eng cs (log_call c g)) = Inl (Error st ''AMD FFT'')"
        by blast
      with es True show ?thesis
        by (intro exI[of _ "(c, fft_ref_count g) # es"])
           (auto simp add: log_call_def error_discipline_def Suc_diff_le length_greater_0_conv
              simp flip: replicate_Suc)
    qed
  qed
qed

subsection \<open>Execute\<close>

text \<open>
  C5. \<open>execute\<close> with \<open>append = true\<close> stops at its first assertion: the outcome is the
  assertion failure, the object and the globals are what they were, and the log has not
  grown, so no call has been made to the engine, neither the result-location
  configuration nor the enqueue.
\<close>

theorem execute_append_rejected:
  "execute eng True input output obj g = (Inl AssertionFailed, obj, g) \<and>
   trace (snd (snd (execute eng True input output obj g))) = trace g"
  by (simp add: execute_run_calls)

text \<open>
  C6. \<open>execute\<close> with a number of queues other than one (in particular with more than
  one) stops at an assertion without any call to the engine; conversely, whenever
  \<open>execute\<close> makes a call to the engine, or is left in any way other than by an assertion
  failure, exactly one queue is configured.
\<close>

theorem execute_needs_one_queue:
  "(length (queues obj) \<noteq> 1 \<longrightarrow>
      execute eng a input output obj g = (Inl AssertionFailed, obj, g)) \<and>
   (trace (snd (snd (execute eng a input output obj g))) \<noteq> trace g \<longrightarrow>
      length (queues obj) = 1) \<and>
   (fst (execute eng a input output obj g) \<noteq> Inl AssertionFailed \<longrightarrow>
      length (queues obj) = 1)"
  by (simp add: execute_run_calls)

theorem execute_needs_one_queue_witness:
  "length (queues fft_two_queues) \<noteq> 1 \<and>
   execute engine_ok False vec_x vec_y fft_two_queues initial_globals =
     (Inl AssertionFailed, fft_two_queues, initial_globals) \<and>
   trace (snd (snd (execute engine_ok False vec_x vec_y fft_one_queue initial_globals)))
     \<noteq> trace initial_globals \<and>
   fst (execute engine_ok False vec_x vec_y fft_one_queue initial_globals) \<noteq> Inl AssertionFailed \<and>
   length (queues fft_one_queue) = 1"
proof -
  have two: "length (queues fft_two_queues) \<noteq> 1"
    by (simp add: fft_two_queues_def)
  have calls: "trace (snd (snd (execute engine_ok False vec_x vec_y fft_one_queue
      initial_globals))) \<noteq> trace initial_globals"
    by (simp add: execute_run_calls fft_one_queue_def engine_ok_def
          initial_globals_def log_call_def)
  have ret: "fst (execute engine_ok False vec_x vec_y fft_one_queue initial_globals)
      \<noteq> Inl AssertionFailed"
    by (simp add: execute_run_calls fft_one_queue_def engine_ok_def
          initial_globals_def log_call_def)
  from two calls ret
    execute_needs_one_queue[of fft_two_queues engine_ok False vec_x vec_y initial_globals]
    execute_needs_one_queue[of fft_one_queue engine_ok False vec_x vec_y initial_globals]
  show ?thesis by blast
qed

text \<open>
  C2. When \<open>execute\<close> gets past its assertions, the first call it makes configures the
  result location of the plan: in-place if the input and the output have the same device
  memory handle, out-of-place if they differ. The transform is enqueued after that call,
  and only if the engine accepted it; nothing else is called.
\<close>

theorem execute_result_location:
  assumes "\<not> a" and "length (queues obj) = 1"
  shows "trace (snd (snd (execute eng a input output obj g))) =
     trace g @
     (SetResultLocation (plan obj)
        (if input 0 = output 0 then CLFFT_INPLACE else CLFFT_OUTOFPLACE), fft_ref_count g) #
     (if respond eng (trace g) (SetResultLocation (plan obj)
           (if input 0 = output 0 then CLFFT_INPLACE else CLFFT_OUTOFPLACE)) = CL_SUCCESS
      then [(EnqueueTransform (plan obj) (dir obj) 1 (raw_queues (queues obj))
               (input 0) (output 0), fft_ref_count g)]
      else [])"
  using assms by (simp add: execute_run_calls log_call_def)

theorem execute_result_location_witness:
  "trace (snd (snd (execute engine_ok False vec_x vec_x fft_one_queue initial_globals))) =
     [(SetResultLocation 7 CLFFT_INPLACE, 0), (EnqueueTransform 7 forward 1 [11] 100 100, 0)] \<and>
   trace (snd (snd (execute engine_ok False vec_x vec_y fft_one_queue initial_globals))) =
     [(SetResultLocation 7 CLFFT_OUTOFPLACE, 0), (EnqueueTransform 7 forward 1 [11] 100 200, 0)]"
proof -
  have a: "\<not> False" by simp
  have q: "length (queues fft_one_queue) = 1" by (simp add: fft_one_queue_def)
  show ?thesis
    using execute_result_location[OF a q, of engine_ok vec_x vec_x initial_globals]
      execute_result_location[OF a q, of engine_ok vec_x vec_y initial_globals]
    by (simp add: fft_one_queue_def engine_ok_def initial_globals_def vec_x_def vec_y_def
          queue_a_def)
qed

text \<open>
  C10. \<open>execute\<close> leaves the object (plan handle, direction, queues) and the global
  reference count as they were, however it is left. Therefore a second \<open>execute\<close> on the
  same object computes its result location from its own buffers: after a first call that
  returned, the log holds the first call's configuration and enqueue and then the second
  call's configuration, each with the location given by that call's buffers, and nothing
  in between.
\<close>

theorem execute_frame:
  assumes "execute eng a1 in1 out1 obj g = (r1, obj1, g1)"
    and "execute eng a2 in2 out2 obj1 g1 = (r2, obj2, g2)"
  shows "obj1 = obj \<and> fft_ref_count g1 = fft_ref_count g \<and>
     obj2 = obj \<and> fft_ref_count g2 = fft_ref_count g \<and>
     (r1 = Inr () \<and> \<not> a2 \<longrightarrow>
        (\<exists>rest. trace g2 = trace g @
           [(SetResultLocation (plan obj)
               (if in1 0 = out1 0 then CLFFT_INPLACE else CLFFT_OUTOFPLACE), fft_ref_count g),
            (EnqueueTransform (plan obj) (dir obj) 1 (raw_queues (queues obj))
               (in1 0) (out1 0), fft_ref_count g),
            (SetResultLocation (plan obj)
               (if in2 0 = out2 0 then CLFFT_INPLACE else CLFFT_OUTOFPLACE), fft_ref_count g)]
           @ rest \<and>
           (rest = [] \<or>
            rest = [(EnqueueTransform (plan obj) (dir obj) 1 (raw_queues (queues obj))
               (in2 0) (out2 0), fft_ref_count g)])))"
proof -
  from assms(1) have 1: "obj1 = obj" "fft_ref_count g1 = fft_ref_count g"
    by (auto simp: execute_run_calls log_call_def split: if_splits)
  from assms(2) have 2: "obj2 = obj1" "fft_ref_count g2 = fft_ref_count g1"
    by (auto simp: execute_run_calls log_call_def split: if_splits)
  have 3: "\<exists>rest. trace g2 = trace g @
           [(SetResultLocation (plan obj)
               (if in1 0 = out1 0 then CLFFT_INPLACE else CLFFT_OUTOFPLACE), fft_ref_count g),
            (EnqueueTransform (plan obj) (dir obj) 1 (raw_queues (queues obj))
               (in1 0) (out1 0), fft_ref_count g),
            (SetResultLocation (plan obj)
               (if in2 0 = out2 0 then CLFFT_INPLACE else CLFFT_OUTOFPLACE), fft_ref_count g)]
           @ rest \<and>
           (rest = [] \<or>
            rest = [(EnqueueTransform (plan obj) (dir obj) 1 (raw_queues (queues obj))
               (in2 0) (out2 0), fft_ref_count g)])"
    if r: "r1 = Inr ()" and a: "\<not> a2"
  proof -
    from assms(1) r have q: "length (queues obj) = 1" and na: "\<not> a1"
      by (auto simp: execute_run_calls split: if_splits)
    from assms(1) r q na have t1: "trace g1 = trace g @
        [(SetResultLocation (plan obj)
               (if in1 0 = out1 0 then CLFFT_INPLACE else CLFFT_OUTOFPLACE), fft_ref_count g),
         (EnqueueTransform (plan obj) (dir obj) 1 (raw_queues (queues obj))
               (in1 0) (out1 0), fft_ref_count g)]"
      by (auto simp: execute_run_calls log_call_def split: if_splits)
    from assms(2) a q 1 have t2: "trace g2 = trace g1 @
       (SetResultLocation (plan obj)
        (if in2 0 = out2 0 then CLFFT_INPLACE else CLFFT_OUTOFPLACE), fft_ref_count g) #
       (if respond eng (trace g1) (SetResultLocation (plan obj)
           (if in2 0 = out2 0 then CLFFT_INPLACE else CLFFT_OUTOFPLACE)) = CL_SUCCESS
        then [(EnqueueTransform (plan obj) (dir obj) 1 (raw_queues (queues obj))
               (in2 0) (out2 0), fft_ref_count g)]
        else [])"
      by (auto simp: execute_run_calls log_call_def split: if_splits)
    show ?thesis
      by (simp add: t2) (simp add: t1)
  qed
  show ?thesis
  proof (intro conjI impI)
    show "obj1 = obj" "fft_ref_count g1 = fft_ref_count g" by (rule 1)+
    show "obj2 = obj" "fft_ref_count g2 = fft_ref_count g" by (simp_all add: 1 2)
  qed (use 3 in blast)
qed

theorem execute_frame_witness:
  "execute engine_ok False vec_x vec_x fft_one_queue initial_globals =
     (Inr (), fft_one_queue,
      \<lparr>fft_ref_count = 0,
       trace = [(SetResultLocation 7 CLFFT_INPLACE, 0),
                (EnqueueTransform 7 forward 1 [11] 100 100, 0)]\<rparr>) \<and>
   execute engine_ok False vec_x vec_y fft_one_queue
      \<lparr>fft_ref_count = 0,
       trace = [(SetResultLocation 7 CLFFT_INPLACE, 0),
                (EnqueueTransform 7 forward 1 [11] 100 100, 0)]\<rparr> =
     (Inr (), fft_one_queue,
      \<lparr>fft_ref_count = 0,
       trace = [(SetResultLocation 7 CLFFT_INPLACE, 0),
                (EnqueueTransform 7 forward 1 [11] 100 100, 0),
                (SetResultLocation 7 CLFFT_OUTOFPLACE, 0),
                (EnqueueTransform 7 forward 1 [11] 100 200, 0)]\<rparr>) \<and>
   plan fft_one_queue = 7 \<and> vec_x 0 \<noteq> vec_y 0"
proof -
  have e1: "execute engine_ok False vec_x vec_x fft_one_queue initial_globals =
     (Inr (), fft_one_queue,
      \<lparr>fft_ref_count = 0,
       trace = [(SetResultLocation 7 CLFFT_INPLACE, 0),
                (EnqueueTransform 7 forward 1 [11] 100 100, 0)]\<rparr>)"
    by (simp add: execute_run_calls fft_one_queue_def engine_ok_def initial_globals_def
          vec_x_def queue_a_def log_call_def)
  have e2: "execute engine_ok False vec_x vec_y fft_one_queue
      \<lparr>fft_ref_count = 0,
       trace = [(SetResultLocation 7 CLFFT_INPLACE, 0),
                (EnqueueTransform 7 forward 1 [11] 100 100, 0)]\<rparr> =
     (Inr (), fft_one_queue,
      \<lparr>fft_ref_count = 0,
       trace = [(SetResultLocation 7 CLFFT_INPLACE, 0),
                (EnqueueTransform 7 forward 1 [11] 100 100, 0),
                (SetResultLocation 7 CLFFT_OUTOFPLACE, 0),
                (EnqueueTransform 7 forward 1 [11] 100 200, 0)]\<rparr>)"
    by (simp add: execute_run_calls fft_one_queue_def engine_ok_def
          vec_x_def vec_y_def queue_a_def log_call_def)
  from execute_frame[OF e1 e2] e1 e2 show ?thesis
    by (simp add: fft_one_queue_def vec_x_def vec_y_def)
qed

lemma run_calls_returned:
  assumes "run_calls eng cs g = (Inr u, g')"
  shows "trace g' = trace g @ map (\<lambda>c. (c, fft_ref_count g)) cs"
    and "fft_ref_count g' = fft_ref_count g"
proof -
  from run_calls_trace[of cs eng g] assms
  show "trace g' = trace g @ map (\<lambda>c. (c, fft_ref_count g)) cs" by auto
  from run_calls_count[of eng cs g] assms
  show "fft_ref_count g' = fft_ref_count g" by simp
qed

lemma run_calls_left:
  assumes "run_calls eng cs g = (Inl e, g')"
  shows "\<exists>k. 0 < k \<and> k \<le> length cs \<and>
           trace g' = trace g @ map (\<lambda>c. (c, fft_ref_count g)) (take k cs)"
    and "fft_ref_count g' = fft_ref_count g"
proof -
  from run_calls_trace[of cs eng g] assms
  show "\<exists>k. 0 < k \<and> k \<le> length cs \<and>
           trace g' = trace g @ map (\<lambda>c. (c, fft_ref_count g)) (take k cs)" by auto
  from run_calls_count[of eng cs g] assms
  show "fft_ref_count g' = fft_ref_count g" by simp
qed

lemma FFT_new_returned:
  assumes "FFT_new eng qs ls d g = (Inr obj, g')"
  shows "1 \<le> length ls \<and> length ls \<le> 3 \<and> qs \<noteq> [] \<and>
     obj = \<lparr>queues = qs, plan = created_plan eng g, dir = d\<rparr> \<and>
     fft_ref_count g' = fft_ref_count g + 1 \<and>
     trace g' = trace g @ map (\<lambda>c. (c, fft_ref_count g + 1)) (init_calls eng qs ls g)"
proof -
  from assms have pre: "1 \<le> length ls \<and> length ls \<le> 3" "qs \<noteq> []"
    by (auto simp: FFT_new_run_calls split: if_splits)
  from assms pre obtain u where
    rc: "run_calls eng (init_calls eng qs ls g) (g\<lparr>fft_ref_count := fft_ref_count g + 1\<rparr>) = (Inr u, g')"
    and obj: "obj = \<lparr>queues = qs, plan = created_plan eng g, dir = d\<rparr>"
    by (auto simp: FFT_new_run_calls split: prod.splits sum.splits)
  from run_calls_returned[OF rc] pre obj show ?thesis by simp
qed

lemma FFT_new_left:
  assumes "FFT_new eng qs ls d g = (Inl (Error st tag), g')"
  shows "1 \<le> length ls \<and> length ls \<le> 3 \<and> qs \<noteq> [] \<and>
     fft_ref_count g' = fft_ref_count g + 1 \<and>
     (\<exists>k. 0 < k \<and> k \<le> length (init_calls eng qs ls g) \<and>
        trace g' = trace g @ map (\<lambda>c. (c, fft_ref_count g + 1)) (take k (init_calls eng qs ls g)))"
proof -
  from assms have pre: "1 \<le> length ls \<and> length ls \<le> 3" "qs \<noteq> []"
    by (auto simp: FFT_new_run_calls split: if_splits)
  from assms pre have
    rc: "run_calls eng (init_calls eng qs ls g) (g\<lparr>fft_ref_count := fft_ref_count g + 1\<rparr>)
           = (Inl (Error st tag), g')"
    by (auto simp: FFT_new_run_calls split: prod.splits sum.splits)
  from run_calls_left[OF rc] pre show ?thesis by simp
qed

subsection \<open>Construction\<close>

text \<open>
  C4. A construction that succeeds has passed the assertion that there are between one
  and three lengths, has incremented the global reference count, and has made these calls
  in this order, all of them with the count already incremented: the global setup, if and
  only if the count was zero; the creation of a plan from the context of the first queue
  (no other queue is looked at), the number of lengths as dimension, and the lengths; the
  setting of the plan's precision to single; the setting of its layout to
  interleaved-complex for input and output. Nothing else is called.
\<close>

theorem construction_steps:
  assumes "FFT_new eng qs lengths d g = (Inr obj, g')"
  shows "1 \<le> length lengths \<and> length lengths \<le> 3 \<and> qs \<noteq> [] \<and>
     queues obj = qs \<and> dir obj = d \<and>
     fft_ref_count g' = fft_ref_count g + 1 \<and>
     trace g' = trace g @ new_events g g' \<and>
     new_events g g' =
       (if fft_ref_count g = 0 then [(Setup, fft_ref_count g + 1)] else []) @
       [(CreateDefaultPlan (queue_context (hd qs)) (length lengths) lengths, fft_ref_count g + 1),
        (SetPlanPrecision (plan obj) CLFFT_SINGLE, fft_ref_count g + 1),
        (SetLayout (plan obj) CLFFT_COMPLEX_INTERLEAVED CLFFT_COMPLEX_INTERLEAVED,
           fft_ref_count g + 1)]"
  using FFT_new_returned[OF assms]
  by (simp add: new_events_def init_calls_def setup_calls_def)

theorem construction_steps_witness:
  "FFT_new engine_ok [queue_a, queue_b] [8, 4] inverse_dir initial_globals =
     (Inr \<lparr>queues = [queue_a, queue_b], plan = 2, dir = inverse_dir\<rparr>,
      \<lparr>fft_ref_count = 1,
       trace = [(Setup, 1), (CreateDefaultPlan 5 2 [8, 4], 1), (SetPlanPrecision 2 CLFFT_SINGLE, 1),
         (SetLayout 2 CLFFT_COMPLEX_INTERLEAVED CLFFT_COMPLEX_INTERLEAVED, 1)]\<rparr>) \<and>
   new_events initial_globals
      \<lparr>fft_ref_count = 1,
       trace = [(Setup, 1), (CreateDefaultPlan 5 2 [8, 4], 1), (SetPlanPrecision 2 CLFFT_SINGLE, 1),
         (SetLayout 2 CLFFT_COMPLEX_INTERLEAVED CLFFT_COMPLEX_INTERLEAVED, 1)]\<rparr> =
     [(Setup, 1), (CreateDefaultPlan 5 2 [8, 4], 1), (SetPlanPrecision 2 CLFFT_SINGLE, 1),
      (SetLayout 2 CLFFT_COMPLEX_INTERLEAVED CLFFT_COMPLEX_INTERLEAVED, 1)]"
proof -
  have new: "FFT_new engine_ok [queue_a, queue_b] [8, 4] inverse_dir initial_globals =
     (Inr \<lparr>queues = [queue_a, queue_b], plan = 2, dir = inverse_dir\<rparr>,
      \<lparr>fft_ref_count = 1,
       trace = [(Setup, 1), (CreateDefaultPlan 5 2 [8, 4], 1), (SetPlanPrecision 2 CLFFT_SINGLE, 1),
         (SetLayout 2 CLFFT_COMPLEX_INTERLEAVED CLFFT_COMPLEX_INTERLEAVED, 1)]\<rparr>)"
    by (simp add: FFT_new_run_calls init_calls_def setup_calls_def created_plan_def
          engine_ok_def initial_globals_def queue_a_def log_call_def)
  from construction_steps[OF new] new show ?thesis
    by (simp add: initial_globals_def queue_a_def)
qed

text \<open>
  C9. When a construction is left by an engine error, the global reference count is one
  more than before: the increment is not undone. The calls made are a non-empty initial
  part of the sequence setup (if the count was zero), plan creation, precision, layout;
  every one of them saw the incremented count, so the increment, and the setup after it,
  came before the plan creation; and no teardown or plan destruction follows the failure.
\<close>

theorem failed_construction_keeps_count:
  assumes "FFT_new eng qs lengths d g = (Inl (Error st tag), g')"
  shows "fft_ref_count g' = fft_ref_count g + 1 \<and>
     trace g' = trace g @ new_events g g' \<and>
     (let n = fft_ref_count g + 1;
          pre = (if fft_ref_count g = 0 then [(Setup, n)] else []);
          p = new_plan eng (trace g @ pre)
      in \<exists>k. 0 < k \<and> new_events g g' = take k (pre @
           [(CreateDefaultPlan (queue_context (hd qs)) (length lengths) lengths, n),
            (SetPlanPrecision p CLFFT_SINGLE, n),
            (SetLayout p CLFFT_COMPLEX_INTERLEAVED CLFFT_COMPLEX_INTERLEAVED, n)]))"
proof -
  from FFT_new_left[OF assms] obtain k where k: "0 < k"
    "trace g' = trace g @ map (\<lambda>c. (c, fft_ref_count g + 1)) (take k (init_calls eng qs lengths g))"
    and n: "fft_ref_count g' = fft_ref_count g + 1"
    by blast
  from k(2) have ev: "new_events g g' =
      take k (map (\<lambda>c. (c, fft_ref_count g + 1)) (init_calls eng qs lengths g))"
    by (simp add: new_events_def take_map)
  have "0 < k \<and> new_events g g' = take k
      ((if fft_ref_count g = 0 then [(Setup, fft_ref_count g + 1)] else []) @
       [(CreateDefaultPlan (queue_context (hd qs)) (length lengths) lengths, fft_ref_count g + 1),
        (SetPlanPrecision (new_plan eng (trace g @
            (if fft_ref_count g = 0 then [(Setup, fft_ref_count g + 1)] else []))) CLFFT_SINGLE,
          fft_ref_count g + 1),
        (SetLayout (new_plan eng (trace g @
            (if fft_ref_count g = 0 then [(Setup, fft_ref_count g + 1)] else [])))
           CLFFT_COMPLEX_INTERLEAVED CLFFT_COMPLEX_INTERLEAVED, fft_ref_count g + 1)])"
    using k(1) ev by (simp add: init_calls_def setup_calls_def created_plan_def)
  then have "\<exists>k. 0 < k \<and> new_events g g' = take k
      ((if fft_ref_count g = 0 then [(Setup, fft_ref_count g + 1)] else []) @
       [(CreateDefaultPlan (queue_context (hd qs)) (length lengths) lengths, fft_ref_count g + 1),
        (SetPlanPrecision (new_plan eng (trace g @
            (if fft_ref_count g = 0 then [(Setup, fft_ref_count g + 1)] else []))) CLFFT_SINGLE,
          fft_ref_count g + 1),
        (SetLayout (new_plan eng (trace g @
            (if fft_ref_count g = 0 then [(Setup, fft_ref_count g + 1)] else [])))
           CLFFT_COMPLEX_INTERLEAVED CLFFT_COMPLEX_INTERLEAVED, fft_ref_count g + 1)])"
    by (rule exI)
  with n k(2) ev show ?thesis
    by (simp add: Let_def new_events_def)
qed

theorem failed_construction_keeps_count_witness:
  "FFT_new engine_no_plan [queue_a] [8] forward initial_globals =
     (Inl (Error 4097 ''AMD FFT''),
      \<lparr>fft_ref_count = 1, trace = [(Setup, 1), (CreateDefaultPlan 5 1 [8], 1)]\<rparr>) \<and>
   fft_ref_count \<lparr>fft_ref_count = 1, trace = [(Setup, 1), (CreateDefaultPlan 5 1 [8], 1)]\<rparr> =
     fft_ref_count initial_globals + 1"
proof -
  have new: "FFT_new engine_no_plan [queue_a] [8] forward initial_globals =
     (Inl (Error 4097 ''AMD FFT''),
      \<lparr>fft_ref_count = 1, trace = [(Setup, 1), (CreateDefaultPlan 5 1 [8], 1)]\<rparr>)"
    by (simp add: FFT_new_run_calls init_calls_def setup_calls_def created_plan_def
          engine_no_plan_def initial_globals_def queue_a_def log_call_def CL_SUCCESS_def)
  from failed_construction_keeps_count[OF new] new show ?thesis
    by simp
qed

lemma statuses_replicate_append:
  assumes "statuses eng h es = replicate (length es) CL_SUCCESS"
    and "error_discipline eng (h @ es) r fs"
    and "fs = [] \<longrightarrow> (\<exists>a. r = Inr a)"
  shows "error_discipline eng h r (es @ fs)"
proof (cases r)
  case (Inr a)
  with assms show ?thesis
    by (simp add: error_discipline_def statuses_append replicate_add)
next
  case (Inl e)
  with assms(3) have fs: "fs \<noteq> []" by auto
  show ?thesis
  proof (cases e)
    case (Error st tag)
    with Inl assms fs have "statuses eng (h @ es) fs = replicate (length fs - 1) CL_SUCCESS @ [st]"
      and "tag = ''AMD FFT''" and "st \<noteq> CL_SUCCESS"
      by (simp_all add: error_discipline_def)
    moreover from fs have "length es + length fs - 1 = length es + (length fs - 1)"
      by (cases fs) simp_all
    ultimately show ?thesis using Inl Error assms(1) fs
      by (simp add: error_discipline_def statuses_append replicate_add)
  next
    case AssertionFailed
    with Inl assms fs show ?thesis by (simp add: error_discipline_def)
  next
    case OutOfBounds
    with Inl assms fs show ?thesis by (simp add: error_discipline_def)
  qed
qed

lemma run_calls_discipline':
  "trace (snd (run_calls eng cs g)) = trace g @ new_events g (snd (run_calls eng cs g)) \<and>
   error_discipline eng (trace g) (fst (run_calls eng cs g)) (new_events g (snd (run_calls eng cs g)))"
  using run_calls_discipline[of eng cs g] by (auto simp: new_events_def)

lemma FFT_new_discipline:
  "trace (snd (FFT_new eng qs ls d g)) = trace g @ new_events g (snd (FFT_new eng qs ls d g)) \<and>
   error_discipline eng (trace g) (fst (FFT_new eng qs ls d g))
     (new_events g (snd (FFT_new eng qs ls d g)))"
proof (cases "\<not> (1 \<le> length ls \<and> length ls \<le> 3) \<or> qs = []")
  case True
  then show ?thesis
    by (auto simp: FFT_new_run_calls new_events_def error_discipline_def)
next
  case False
  let ?g1 = "g\<lparr>fft_ref_count := fft_ref_count g + 1\<rparr>"
  let ?rc = "run_calls eng (init_calls eng qs ls g) ?g1"
  from False have new: "FFT_new eng qs ls d g =
      (case ?rc of (Inl e, g') \<Rightarrow> (Inl e, g')
       | (Inr _, g') \<Rightarrow> (Inr \<lparr>queues = qs, plan = created_plan eng g, dir = d\<rparr>, g'))"
    by (simp add: FFT_new_run_calls)
  have ev: "new_events g (snd ?rc) = new_events ?g1 (snd ?rc)"
    by (simp add: new_events_def)
  from run_calls_discipline'[of eng "init_calls eng qs ls g" ?g1]
  have d: "trace (snd ?rc) = trace g @ new_events g (snd ?rc)"
    "error_discipline eng (trace g) (fst ?rc) (new_events g (snd ?rc))"
    by (simp_all add: ev)
  show ?thesis
  proof (cases ?rc)
    case (Pair r g')
    with d new show ?thesis
      by (cases r) (simp_all add: error_discipline_def)
  qed
qed

lemma FFT_delete_discipline:
  "trace (snd (FFT_delete eng obj g)) = trace g @ new_events g (snd (FFT_delete eng obj g)) \<and>
   error_discipline eng (trace g) (fst (FFT_delete eng obj g))
     (new_events g (snd (FFT_delete eng obj g)))"
  by (simp add: FFT_delete_run_calls destroy_calls_def teardown_calls_def log_call_def
        new_events_def error_discipline_def)

lemma execute_discipline:
  "trace (snd (snd (execute eng a i o' obj g))) =
     trace g @ new_events g (snd (snd (execute eng a i o' obj g))) \<and>
   error_discipline eng (trace g) (fst (execute eng a i o' obj g))
     (new_events g (snd (snd (execute eng a i o' obj g))))"
  by (simp add: execute_run_calls log_call_def new_events_def error_discipline_def)

subsection \<open>Errors\<close>

text \<open>
  C7. \<open>check_error\<close> raises exactly for a status other than success, and what it raises
  is a \<open>cl::Error\<close> with that status and the tag "AMD FFT". In the constructor, the
  destructor and \<open>execute\<close>, every status the engine returns goes through it: if the
  member function is left by a \<open>cl::Error\<close>, the error carries the status of the last
  call made, that status is not success, the tag is "AMD FFT" and all earlier calls
  succeeded (so nothing is called after a refusal, in particular not the refused call
  again); if it is left by an assertion, no call was made; if it returns, every call
  succeeded.
\<close>

theorem engine_errors:
  "check_error st s =
     (if st = CL_SUCCESS then (Inr (), s) else (Inl (Error st ''AMD FFT''), s)) \<and>
   (case FFT_new eng qs lengths d g of (r, g') \<Rightarrow>
      trace g' = trace g @ new_events g g' \<and>
      error_discipline eng (trace g) r (new_events g g')) \<and>
   (case FFT_delete eng obj g of (r, g') \<Rightarrow>
      trace g' = trace g @ new_events g g' \<and>
      error_discipline eng (trace g) r (new_events g g')) \<and>
   (case execute eng a input output obj g of (r, obj', g') \<Rightarrow>
      trace g' = trace g @ new_events g g' \<and>
      error_discipline eng (trace g) r (new_events g g'))"
proof (intro conjI)
  show "check_error st s =
     (if st = CL_SUCCESS then (Inr (), s) else (Inl (Error st ''AMD FFT''), s))"
    by (simp add: check_error_def throw_prog_def return_prog_def)
  show "case FFT_new eng qs lengths d g of (r, g') \<Rightarrow>
      trace g' = trace g @ new_events g g' \<and>
      error_discipline eng (trace g) r (new_events g g')"
    using FFT_new_discipline[of eng qs lengths d g] by (simp add: case_prod_beta)
  show "case FFT_delete eng obj g of (r, g') \<Rightarrow>
      trace g' = trace g @ new_events g g' \<and>
      error_discipline eng (trace g) r (new_events g g')"
    using FFT_delete_discipline[of eng obj g] by (simp add: case_prod_beta)
  show "case execute eng a input output obj g of (r, obj', g') \<Rightarrow>
      trace g' = trace g @ new_events g g' \<and>
      error_discipline eng (trace g) r (new_events g g')"
    using execute_discipline[of eng a "input" "output" obj g] by (simp add: case_prod_beta)
qed

subsection \<open>Destruction\<close>

text \<open>
  C8, amended. The destructor calls the engine to destroy the plan if and only if the plan
  handle is not null. Unless that call is refused, it decrements the global reference
  count (also when the plan handle is null) and calls the global teardown if and only if
  the decremented count is zero. When the destruction of the plan is refused, the
  destructor is left by the error before the decrement: the count keeps its value and the
  teardown is not called.
\<close>

theorem destructor_effects:
  "let p = plan obj; n = fft_ref_count g;
       refused = (p \<noteq> 0 \<and> respond eng (trace g) (DestroyPlan p) \<noteq> CL_SUCCESS);
       g' = snd (FFT_delete eng obj g)
   in trace g' = trace g @ new_events g g' \<and>
      new_events g g' =
        (if p \<noteq> 0 then [(DestroyPlan p, n)] else []) @
        (if \<not> refused \<and> n - 1 = 0 then [(Teardown, n - 1)] else []) \<and>
      fft_ref_count g' = (if refused then n else n - 1) \<and>
      (refused \<longrightarrow> fst (FFT_delete eng obj g) =
         Inl (Error (respond eng (trace g) (DestroyPlan p)) ''AMD FFT''))"
  by (simp add: FFT_delete_run_calls destroy_calls_def teardown_calls_def log_call_def
        new_events_def Let_def)

theorem destructor_effects_witness:
  "(let g' = snd (FFT_delete engine_ok \<lparr>queues = [queue_a], plan = 0, dir = forward\<rparr>
                \<lparr>fft_ref_count = 1, trace = []\<rparr>)
    in new_events \<lparr>fft_ref_count = 1, trace = []\<rparr> g' = [(Teardown, 0)] \<and> fft_ref_count g' = 0) \<and>
   (let g' = snd (FFT_delete engine_no_destroy fft_one_queue \<lparr>fft_ref_count = 1, trace = []\<rparr>)
    in new_events \<lparr>fft_ref_count = 1, trace = []\<rparr> g' = [(DestroyPlan 7, 1)] \<and>
       fft_ref_count g' = 1 \<and>
       fst (FFT_delete engine_no_destroy fft_one_queue \<lparr>fft_ref_count = 1, trace = []\<rparr>) =
         Inl (Error (- 1) ''AMD FFT''))"
  using destructor_effects[of "\<lparr>queues = [queue_a], plan = 0, dir = forward\<rparr>"
      "\<lparr>fft_ref_count = 1, trace = []\<rparr>" engine_ok]
    destructor_effects[of fft_one_queue "\<lparr>fft_ref_count = 1, trace = []\<rparr>" engine_no_destroy]
  by (simp add: Let_def fft_one_queue_def engine_no_destroy_def engine_ok_def CL_SUCCESS_def)

text \<open>
  C8 as stated fails: with a count of two, a plan handle that is not null and an engine
  that refuses to destroy the plan, the destructor leaves the count at two.
\<close>

theorem destructor_decrement_counterexample:
  "plan fft_two_queues \<noteq> 0 \<and>
   FFT_delete engine_no_destroy fft_two_queues \<lparr>fft_ref_count = 2, trace = []\<rparr> =
     (Inl (Error (- 1) ''AMD FFT''), \<lparr>fft_ref_count = 2, trace = [(DestroyPlan 7, 2)]\<rparr>) \<and>
   fft_ref_count (snd (FFT_delete engine_no_destroy fft_two_queues
       \<lparr>fft_ref_count = 2, trace = []\<rparr>)) \<noteq> 2 - 1"
  by (simp add: FFT_delete_def FFT_delete_body_def prog_defs fft_two_queues_def
        engine_no_destroy_def log_call_def CL_SUCCESS_def)

subsection \<open>The reference count and the global setup and teardown\<close>

lemma FFT_new_transition:
  "case FFT_new eng qs lengths d g of (r, g') \<Rightarrow>
      if r = Inl AssertionFailed \<or> r = Inl OutOfBounds then g' = g
      else fft_ref_count g' = fft_ref_count g + 1 \<and>
           trace g' = trace g @ new_events g g' \<and>
           (Setup \<in> set (new_calls g g') \<longleftrightarrow> fft_ref_count g = 0 \<and> fft_ref_count g' = 1) \<and>
           Teardown \<notin> set (new_calls g g')"
  by (simp add: FFT_new_run_calls init_calls_def setup_calls_def new_calls_def new_events_def
        log_call_def)

lemma FFT_delete_transition:
  "case FFT_delete eng obj g of (r, g') \<Rightarrow>
      trace g' = trace g @ new_events g g' \<and>
      (if plan obj \<noteq> 0 \<and> respond eng (trace g) (DestroyPlan (plan obj)) \<noteq> CL_SUCCESS
      then fft_ref_count g' = fft_ref_count g \<and>
           Setup \<notin> set (new_calls g g') \<and> Teardown \<notin> set (new_calls g g')
      else fft_ref_count g' = fft_ref_count g - 1 \<and>
           (Teardown \<in> set (new_calls g g') \<longleftrightarrow> fft_ref_count g = 1 \<and> fft_ref_count g' = 0) \<and>
           Setup \<notin> set (new_calls g g'))"
  by (simp add: FFT_delete_run_calls destroy_calls_def teardown_calls_def new_calls_def
        new_events_def log_call_def)

lemma execute_transition:
  "case execute eng a i o' obj g of (r, obj', g') \<Rightarrow>
      fft_ref_count g' = fft_ref_count g \<and>
      trace g' = trace g @ new_events g g' \<and>
      Setup \<notin> set (new_calls g g') \<and> Teardown \<notin> set (new_calls g g')"
  by (simp add: execute_run_calls new_calls_def new_events_def log_call_def)

text \<open>
  C1, amended. A construction that reaches the counter (it passed the assertion on the
  number of lengths and found a first queue) increments the global reference count,
  whether or not the engine accepts the calls that follow; it calls the global setup if
  and only if the count goes from zero to one, and never the teardown. A destruction in
  which the engine does not refuse to destroy the plan decrements the count; it calls the
  global teardown if and only if the count goes from one to zero, and never the setup. A
  destruction in which the engine refuses to destroy the plan leaves the count as it is
  and calls neither. \<open>execute\<close> leaves the count as it is and calls neither.
\<close>

theorem ref_count_transitions:
  "(case FFT_new eng qs lengths d g of (r, g') \<Rightarrow>
      if r = Inl AssertionFailed \<or> r = Inl OutOfBounds then g' = g
      else fft_ref_count g' = fft_ref_count g + 1 \<and>
           trace g' = trace g @ new_events g g' \<and>
           (Setup \<in> set (new_calls g g') \<longleftrightarrow> fft_ref_count g = 0 \<and> fft_ref_count g' = 1) \<and>
           Teardown \<notin> set (new_calls g g')) \<and>
   (case FFT_delete eng obj g of (r, g') \<Rightarrow>
      trace g' = trace g @ new_events g g' \<and>
      (if plan obj \<noteq> 0 \<and> respond eng (trace g) (DestroyPlan (plan obj)) \<noteq> CL_SUCCESS
      then fft_ref_count g' = fft_ref_count g \<and>
           Setup \<notin> set (new_calls g g') \<and> Teardown \<notin> set (new_calls g g')
      else fft_ref_count g' = fft_ref_count g - 1 \<and>
           (Teardown \<in> set (new_calls g g') \<longleftrightarrow> fft_ref_count g = 1 \<and> fft_ref_count g' = 0) \<and>
           Setup \<notin> set (new_calls g g'))) \<and>
   (case execute eng a input output obj' g of (r, obj'', g') \<Rightarrow>
      fft_ref_count g' = fft_ref_count g \<and>
      trace g' = trace g @ new_events g g' \<and>
      Setup \<notin> set (new_calls g g') \<and> Teardown \<notin> set (new_calls g g'))"
  by (intro conjI FFT_new_transition FFT_delete_transition execute_transition)

text \<open>
  C1 as stated fails: the count is not decremented on every destruction. With a count of
  one and an engine that refuses to destroy the plan, the destructor is left by the error
  and the count is still one.
\<close>

theorem destruction_without_decrement_counterexample:
  "FFT_delete engine_no_destroy \<lparr>queues = [queue_b], plan = 3, dir = inverse_dir\<rparr>
      \<lparr>fft_ref_count = 1, trace = []\<rparr> =
     (Inl (Error (- 1) ''AMD FFT''), \<lparr>fft_ref_count = 1, trace = [(DestroyPlan 3, 1)]\<rparr>) \<and>
   fft_ref_count \<lparr>fft_ref_count = 1, trace = [(DestroyPlan 3, 1)]\<rparr> \<noteq> 1 - 1"
  by (simp add: FFT_delete_def FFT_delete_body_def prog_defs
        engine_no_destroy_def log_call_def CL_SUCCESS_def)

subsection \<open>Several adapters in sequence\<close>

lemma FFT_delete_returned:
  assumes "FFT_delete eng obj g = (Inr u, g')"
  shows "fft_ref_count g' = fft_ref_count g - 1"
  using assms
  by (auto simp: FFT_delete_run_calls destroy_calls_def teardown_calls_def log_call_def
        split: if_splits)

lemma construct_all_returned:
  assumes "construct_all eng args g = (Inr objs, g')"
  shows "length objs = length args \<and> fft_ref_count g' = fft_ref_count g + of_nat (length args)"
  using assms
proof (induction args arbitrary: g objs)
  case Nil
  then show ?case by simp
next
  case (Cons a args)
  obtain qs ls d where a: "a = (qs, ls, d)" by (cases a)
  from Cons.prems a obtain obj g1 objs1 where
    new: "FFT_new eng qs ls d g = (Inr obj, g1)"
    and rest: "construct_all eng args g1 = (Inr objs1, g')"
    and objs: "objs = obj # objs1"
    by (auto split: prod.splits sum.splits)
  from FFT_new_returned[OF new] have "fft_ref_count g1 = fft_ref_count g + 1" by simp
  with Cons.IH[OF rest] objs show ?case by simp
qed

lemma destroy_all_returned:
  assumes "destroy_all eng objs g = (Inr u, g')"
  shows "fft_ref_count g' = fft_ref_count g - of_nat (length objs)"
  using assms
proof (induction objs arbitrary: g)
  case Nil
  then show ?case by simp
next
  case (Cons obj objs)
  from Cons.prems obtain v g1 where
    del: "FFT_delete eng obj g = (Inr v, g1)"
    and rest: "destroy_all eng objs g1 = (Inr u, g')"
    by (auto split: prod.splits sum.splits)
  from FFT_delete_returned[OF del] Cons.IH[OF rest] show ?case by simp
qed

lemma refused_append:
  "refused eng h (es @ fs) = refused eng h es @ refused eng (h @ es) fs"
  by (induction es arbitrary: h) simp_all

lemma new_events_append:
  assumes "trace g1 = trace g @ new_events g g1"
    and "trace g2 = trace g1 @ new_events g1 g2"
  shows "trace g2 = trace g @ new_events g g2"
    and "new_events g g2 = new_events g g1 @ new_events g1 g2"
proof -
  have "trace g2 = trace g @ (new_events g g1 @ new_events g1 g2)"
    using assms by simp
  then show "new_events g g2 = new_events g g1 @ new_events g1 g2"
    by (simp add: new_events_def[of g g2])
  with assms show "trace g2 = trace g @ new_events g g2"
    by simp
qed

text \<open>
  How a destructor can be left: it returns, no call was refused and the count is one
  less; or the destruction of the plan was refused; or the teardown was refused, and then
  the count is zero.
\<close>

lemma FFT_delete_outcome:
  "case FFT_delete eng obj g of (r, g') \<Rightarrow>
     trace g' = trace g @ new_events g g' \<and>
     (r = Inr () \<and> refused eng (trace g) (new_events g g') = [] \<and>
        fft_ref_count g' = fft_ref_count g - 1 \<or>
      r \<noteq> Inr () \<and> refused eng (trace g) (new_events g g') = [DestroyPlan (plan obj)] \<or>
      r \<noteq> Inr () \<and> refused eng (trace g) (new_events g g') = [Teardown] \<and>
        fft_ref_count g' = 0)"
  by (simp add: FFT_delete_run_calls destroy_calls_def teardown_calls_def new_events_def
        log_call_def)

lemma destroy_all_outcome:
  assumes "destroy_all eng objs g = (r, g')"
  shows "trace g' = trace g @ new_events g g' \<and>
     (r = Inr () \<and> refused eng (trace g) (new_events g g') = [] \<and>
        fft_ref_count g' = fft_ref_count g - of_nat (length objs) \<or>
      r \<noteq> Inr () \<and> (\<exists>p. refused eng (trace g) (new_events g g') = [DestroyPlan p]) \<or>
      r \<noteq> Inr () \<and> refused eng (trace g) (new_events g g') = [Teardown] \<and>
        fft_ref_count g' = 0)"
  using assms
proof (induction objs arbitrary: g)
  case Nil
  then show ?case by (simp add: new_events_def)
next
  case (Cons obj objs)
  obtain r1 g1 where del: "FFT_delete eng obj g = (r1, g1)"
    by (cases "FFT_delete eng obj g")
  from FFT_delete_outcome[where eng = eng and obj = obj and g = g] del have
    t1: "trace g1 = trace g @ new_events g g1"
    and o1: "r1 = Inr () \<and> refused eng (trace g) (new_events g g1) = [] \<and>
        fft_ref_count g1 = fft_ref_count g - 1 \<or>
      r1 \<noteq> Inr () \<and> refused eng (trace g) (new_events g g1) = [DestroyPlan (plan obj)] \<or>
      r1 \<noteq> Inr () \<and> refused eng (trace g) (new_events g g1) = [Teardown] \<and>
        fft_ref_count g1 = 0"
    by simp_all
  show ?case
  proof (cases r1)
    case (Inl e)
    with Cons.prems del have "r = r1" "g' = g1" by simp_all
    with Inl t1 o1 show ?thesis by auto
  next
    case (Inr u)
    with Cons.prems del have rest: "destroy_all eng objs g1 = (r, g')" by simp
    from Inr o1 have ok: "refused eng (trace g) (new_events g g1) = []"
      "fft_ref_count g1 = fft_ref_count g - 1"
      by auto
    from Cons.IH[OF rest] have
      t2: "trace g' = trace g1 @ new_events g1 g'"
      and o2: "r = Inr () \<and> refused eng (trace g1) (new_events g1 g') = [] \<and>
          fft_ref_count g' = fft_ref_count g1 - of_nat (length objs) \<or>
        r \<noteq> Inr () \<and> (\<exists>p. refused eng (trace g1) (new_events g1 g') = [DestroyPlan p]) \<or>
        r \<noteq> Inr () \<and> refused eng (trace g1) (new_events g1 g') = [Teardown] \<and>
          fft_ref_count g' = 0"
      by simp_all
    from new_events_append[OF t1 t2] have
      t: "trace g' = trace g @ new_events g g'"
      and ev: "new_events g g' = new_events g g1 @ new_events g1 g'"
      by simp_all
    have rf: "refused eng (trace g) (new_events g g') =
        refused eng (trace g1) (new_events g1 g')"
      using ok(1) t1 by (simp add: ev refused_append)
    from o2 show ?thesis
      by (auto simp: t rf ok(2))
  qed
qed

text \<open>
  C3. After N constructions in sequence that all succeed, the global reference count is
  its value before plus N (in \<open>size_t\<close> arithmetic; it is the number N itself when it
  started at zero and N is below \<open>2 ^ 64\<close>). When the N adapters have then been destroyed
  in sequence, in any order, that is, when the N destructors have returned (nothing comes
  after a destructor that is left by an exception), the count is back at its value before
  the constructions (zero, if it started at zero). One construction followed by one
  destruction is the case N = 1.

  A destructor that does not return is left by \<open>check_error\<close> at a refused call. The last
  part of the statement says what the count is then, at the throw, for a count that
  started at zero: it is back at zero as well if the refused call is the teardown, so that
  the only runs in which the count has not returned are those with a refused plan
  destruction, which leave the destructor before the decrement.
\<close>

theorem sequential_lifecycle:
  assumes "construct_all eng args g = (Inr objs, g1)"
    and "mset objs' = mset objs"
    and "destroy_all eng objs' g1 = (r, g2)"
  shows "length objs = length args \<and>
     fft_ref_count g1 = fft_ref_count g + of_nat (length args) \<and>
     (r = Inr () \<longrightarrow> fft_ref_count g2 = fft_ref_count g) \<and>
     (fft_ref_count g = 0 \<and> length args < 2 ^ 64 \<longrightarrow>
        unat (fft_ref_count g1) = length args \<and>
        ((\<forall>p. DestroyPlan p \<notin> set (refused eng (trace g1) (new_events g1 g2))) \<longrightarrow>
           fft_ref_count g2 = 0))"
proof -
  from construct_all_returned[OF assms(1)] have
    n: "length objs = length args"
    and c1: "fft_ref_count g1 = fft_ref_count g + of_nat (length args)"
    by simp_all
  from assms(2) have len: "length objs' = length objs"
    by (rule mset_eq_length)
  from destroy_all_outcome[OF assms(3)] have out:
    "r = Inr () \<and> refused eng (trace g1) (new_events g1 g2) = [] \<and>
        fft_ref_count g2 = fft_ref_count g1 - of_nat (length objs') \<or>
     r \<noteq> Inr () \<and> (\<exists>p. refused eng (trace g1) (new_events g1 g2) = [DestroyPlan p]) \<or>
     r \<noteq> Inr () \<and> refused eng (trace g1) (new_events g1 g2) = [Teardown] \<and>
        fft_ref_count g2 = 0"
    by simp
  have ret: "fft_ref_count g2 = fft_ref_count g" if "r = Inr ()"
    using that out n c1 len by auto
  have u: "unat (fft_ref_count g1) = length args"
    if "fft_ref_count g = 0" and "length args < 2 ^ 64"
    using that c1 by (simp add: unat_of_nat)
  have z: "fft_ref_count g2 = 0"
    if "fft_ref_count g = 0"
      and "\<forall>p. DestroyPlan p \<notin> set (refused eng (trace g1) (new_events g1 g2))"
    using that out ret by auto
  from n c1 ret u z show ?thesis by blast
qed

theorem sequential_lifecycle_witness:
  "construct_all engine_ok sample_args initial_globals =
     (Inr [sample_fft_1, sample_fft_2], sample_globals) \<and>
   mset [sample_fft_2, sample_fft_1] = mset [sample_fft_1, sample_fft_2] \<and>
   fst (destroy_all engine_ok [sample_fft_2, sample_fft_1] sample_globals) = Inr () \<and>
   fft_ref_count sample_globals = 2 \<and>
   fft_ref_count (snd (destroy_all engine_ok [sample_fft_2, sample_fft_1] sample_globals)) = 0 \<and>
   construct_all engine_no_teardown sample_args initial_globals =
     (Inr [sample_fft_1, sample_fft_2], sample_globals) \<and>
   fst (destroy_all engine_no_teardown [sample_fft_2, sample_fft_1] sample_globals) =
     Inl (Error 9 ''AMD FFT'') \<and>
   refused engine_no_teardown (trace sample_globals)
     (new_events sample_globals
        (snd (destroy_all engine_no_teardown [sample_fft_2, sample_fft_1] sample_globals))) =
     [Teardown] \<and>
   fft_ref_count
     (snd (destroy_all engine_no_teardown [sample_fft_2, sample_fft_1] sample_globals)) = 0"
proof -
  have c: "construct_all engine_ok sample_args initial_globals =
     (Inr [sample_fft_1, sample_fft_2], sample_globals)"
    by (simp add: sample_args_def sample_fft_1_def sample_fft_2_def sample_globals_def
          FFT_new_run_calls init_calls_def setup_calls_def created_plan_def
          engine_ok_def initial_globals_def queue_a_def log_call_def)
  have m: "mset [sample_fft_2, sample_fft_1] = mset [sample_fft_1, sample_fft_2]"
    by (simp add: add.commute)
  have f: "fst (destroy_all engine_ok [sample_fft_2, sample_fft_1] sample_globals) = Inr ()"
    by (simp add: sample_fft_1_def sample_fft_2_def sample_globals_def
          FFT_delete_run_calls destroy_calls_def teardown_calls_def
          engine_ok_def log_call_def)
  then have d: "destroy_all engine_ok [sample_fft_2, sample_fft_1] sample_globals =
     (Inr (), snd (destroy_all engine_ok [sample_fft_2, sample_fft_1] sample_globals))"
    by (metis prod.collapse)
  have c': "construct_all engine_no_teardown sample_args initial_globals =
     (Inr [sample_fft_1, sample_fft_2], sample_globals)"
    by (simp add: sample_args_def sample_fft_1_def sample_fft_2_def sample_globals_def
          FFT_new_run_calls init_calls_def setup_calls_def created_plan_def
          engine_no_teardown_def initial_globals_def queue_a_def log_call_def CL_SUCCESS_def)
  have d': "destroy_all engine_no_teardown [sample_fft_2, sample_fft_1] sample_globals =
     (Inl (Error 9 ''AMD FFT''),
      \<lparr>fft_ref_count = 0,
       trace = trace sample_globals @ [(DestroyPlan 5, 2), (DestroyPlan 2, 1), (Teardown, 0)]\<rparr>)"
    by (simp add: sample_fft_1_def sample_fft_2_def sample_globals_def
          FFT_delete_run_calls destroy_calls_def teardown_calls_def
          engine_no_teardown_def log_call_def CL_SUCCESS_def)
  have rf: "refused engine_no_teardown (trace sample_globals)
     (new_events sample_globals
        (snd (destroy_all engine_no_teardown [sample_fft_2, sample_fft_1] sample_globals))) =
     [Teardown]"
    unfolding d' by (simp add: new_events_def engine_no_teardown_def CL_SUCCESS_def)
  have z: "fft_ref_count initial_globals = 0 \<and> length sample_args < 2 ^ 64"
    by (simp add: initial_globals_def sample_args_def)
  from sequential_lifecycle[OF c m d] c m f have ok:
    "fft_ref_count sample_globals = 2 \<and>
     fft_ref_count (snd (destroy_all engine_ok [sample_fft_2, sample_fft_1] sample_globals)) = 0"
    by (simp add: initial_globals_def sample_args_def)
  from sequential_lifecycle[OF c' m d'] z rf d' have
    "fft_ref_count
      (snd (destroy_all engine_no_teardown [sample_fft_2, sample_fft_1] sample_globals)) = 0"
    by simp
  with c m f ok c' d' rf show ?thesis by simp
qed

end
